theory Spec2Isabelle
  imports Complex_Main "HOL-Library.Log_Nat" "HOL-Library.Word"
begin

section \<open>Block-mode acquisition scripts for PicoScope 2206B and PicoScope 6000\<close>

text \<open>
  The repository holds two scripts, \<^verbatim>\<open>picoscope-2206B.py\<close> and
  \<^verbatim>\<open>ps6000Examples/ps6000BlockExample.py\<close>.  Each one opens a unit, sets up
  two channels and a trigger, runs a block capture, polls until the driver reports
  that the data is ready, fetches the samples, converts them to millivolts and
  builds a time axis.
\<close>

subsection \<open>Exceptions\<close>

text \<open>
  The scripts catch nothing: an exception ends the run where it is raised.  The
  first three constructors are the Python exceptions that the arithmetic of the
  scripts and the array constructors can raise.  \<open>DeviceError key code\<close> is the
  error raised by \<^verbatim>\<open>assert_pico_ok\<close> for the status stored under \<open>key\<close>;
  \<open>DivisionByZeroError\<close> is the error of the sample converter.
\<close>

datatype error =
    ZeroDivisionError
  | OverflowError
  | ValueError
  | DeviceError string nat
  | DivisionByZeroError

definition and_then :: "error + 'a \<Rightarrow> ('a \<Rightarrow> error + 'b) \<Rightarrow> error + 'b" where
  "and_then r f = (case r of Inl e \<Rightarrow> Inl e | Inr x \<Rightarrow> f x)"

subsection \<open>Python floats\<close>

text \<open>
  A Python \<^verbatim>\<open>float\<close> is an IEEE 754 binary64 number.  A finite one is the rational
  it denotes; the sign of zero is dropped, as no operation of the scripts can
  tell the two zeros apart (a division by either raises).
\<close>

datatype double = Fin rat | PInf | NInf | NaN

text \<open>Rounding to the nearest integer, ties to the even one (Python 3 \<^verbatim>\<open>round\<close>).\<close>

definition round_half_even :: "rat \<Rightarrow> int" where
  "round_half_even q =
     (let n = \<lfloor>q\<rfloor>; r = q - of_int n
      in if r < 1 / 2 then n else if 1 / 2 < r then n + 1 else if even n then n else n + 1)"

text \<open>The binary exponent of a nonzero rational: \<open>2 powi e \<le> \<bar>q\<bar> < 2 powi (e + 1)\<close>.\<close>

definition ilog2 :: "rat \<Rightarrow> int" where
  "ilog2 q =
     (let a = \<bar>q\<bar>
      in if 1 \<le> a then bitlen \<lfloor>a\<rfloor> - 1 else - bitlen (\<lceil>1 / a\<rceil> - 1))"

text \<open>
  \<open>fl q\<close> is the binary64 number nearest to \<open>q\<close>, ties to even: 53 significant
  bits, the spacing never finer than \<open>2 powi - 1074\<close> (subnormal numbers), and
  overflow to an infinity from \<open>2 ^ 1024\<close> on.
\<close>

definition fl :: "rat \<Rightarrow> double" where
  "fl q =
     (if q = 0 then Fin 0
      else let e = max (ilog2 q) (- 1022);
               u = 2 powi (e - 52);
               r = of_int (round_half_even (q / u)) * u
           in if 2 ^ 1024 \<le> \<bar>r\<bar> then (if 0 < q then PInf else NInf) else Fin r)"

fun fneg :: "double \<Rightarrow> double" where
  "fneg (Fin a) = Fin (- a)"
| "fneg PInf = NInf"
| "fneg NInf = PInf"
| "fneg NaN = NaN"

fun fadd :: "double \<Rightarrow> double \<Rightarrow> double" where
  "fadd (Fin a) (Fin b) = fl (a + b)"
| "fadd NaN d = NaN"
| "fadd d NaN = NaN"
| "fadd PInf NInf = NaN"
| "fadd NInf PInf = NaN"
| "fadd (Fin a) d = d"
| "fadd d c = d"

definition fsub :: "double \<Rightarrow> double \<Rightarrow> double" where
  "fsub a b = fadd a (fneg b)"

fun fmul :: "double \<Rightarrow> double \<Rightarrow> double" where
  "fmul (Fin a) (Fin b) = fl (a * b)"
| "fmul NaN d = NaN"
| "fmul d NaN = NaN"
| "fmul (Fin a) d = (if a = 0 then NaN else if 0 < a then d else fneg d)"
| "fmul d (Fin b) = (if b = 0 then NaN else if 0 < b then d else fneg d)"
| "fmul PInf d = d"
| "fmul NInf d = fneg d"

text \<open>The IEEE quotient by a divisor that is not zero.\<close>

fun fquot :: "double \<Rightarrow> double \<Rightarrow> double" where
  "fquot (Fin a) (Fin b) = fl (a / b)"
| "fquot NaN d = NaN"
| "fquot d NaN = NaN"
| "fquot (Fin a) d = Fin 0"
| "fquot d (Fin b) = (if 0 < b then d else fneg d)"
| "fquot d c = NaN"

text \<open>
  Python's \<^verbatim>\<open>/\<close> on floats raises \<^verbatim>\<open>ZeroDivisionError\<close> for a zero divisor and
  otherwise returns the IEEE quotient, an infinity on overflow.
\<close>

definition fdiv :: "double \<Rightarrow> double \<Rightarrow> error + double" where
  "fdiv a b = (if b = Fin 0 then Inl ZeroDivisionError else Inr (fquot a b))"

text \<open>
  The conversion of a Python \<^verbatim>\<open>int\<close> to a float, and \<^verbatim>\<open>/\<close> on two \<^verbatim>\<open>int\<close>s:
  both round the exact result once and raise \<^verbatim>\<open>OverflowError\<close> when it is too
  large for a float.
\<close>

definition finite_or_overflow :: "double \<Rightarrow> error + double" where
  "finite_or_overflow d = (case d of PInf \<Rightarrow> Inl OverflowError | NInf \<Rightarrow> Inl OverflowError | _ \<Rightarrow> Inr d)"

definition float_of_int :: "int \<Rightarrow> error + double" where
  "float_of_int n = finite_or_overflow (fl (of_int n))"

definition int_truediv :: "int \<Rightarrow> int \<Rightarrow> error + double" where
  "int_truediv a b =
     (if b = 0 then Inl ZeroDivisionError else finite_or_overflow (fl (of_int a / of_int b)))"

text \<open>
  \<^verbatim>\<open>round(x)\<close> of a float: the nearest \<^verbatim>\<open>int\<close>, ties to even; \<^verbatim>\<open>OverflowError\<close>
  for an infinity and \<^verbatim>\<open>ValueError\<close> for a NaN.
\<close>

fun py_round :: "double \<Rightarrow> error + int" where
  "py_round (Fin q) = Inr (round_half_even q)"
| "py_round PInf = Inl OverflowError"
| "py_round NInf = Inl OverflowError"
| "py_round NaN = Inl ValueError"

text \<open>
  \<^verbatim>\<open>math.log(x, 2)\<close> raises \<^verbatim>\<open>ValueError\<close> unless \<open>x\<close> is positive (or a NaN).  Its
  value at a positive finite float is computed by the C library; it is the
  parameter \<open>lg\<close>.
\<close>

fun math_log :: "(rat \<Rightarrow> double) \<Rightarrow> double \<Rightarrow> error + double" where
  "math_log lg (Fin a) = (if a \<le> 0 then Inl ValueError else Inr (lg a))"
| "math_log lg PInf = Inr PInf"
| "math_log lg NInf = Inl ValueError"
| "math_log lg NaN = Inr NaN"

subsection \<open>The driver\<close>

text \<open>
  A driver call is recorded with the name of the driver function and the integer
  arguments that the script passes, in order; the handle, the pointer and the
  \<^verbatim>\<open>None\<close> arguments are left out.  A run is described by the list of the calls
  it has issued so far.
\<close>

datatype call = Call string "int list"

text \<open>
  The driver is a closed library; its behaviour during one run is a parameter.
  Every driver function other than IsReady is called at most once in a run, so
  one status for each key of the script's \<^verbatim>\<open>status\<close> dictionary describes what
  the calls return.  \<open>readyValue dev n\<close> is the value that IsReady call number
  \<open>n\<close> leaves in \<^verbatim>\<open>ready\<close>.  The other fields are what the driver writes through
  the pointers it is given: the sample interval (GetTimebase2), the number of
  samples and the contents of the two registered buffers (GetValues), and the
  maximum ADC count (MaximumValue).
\<close>

record device =
  status :: "string \<Rightarrow> nat"
  readyValue :: "nat \<Rightarrow> 16 word"
  timeIntervalNanoseconds :: double
  noOfSamples :: int
  valuesA :: "16 word list"
  valuesB :: "16 word list"
  maximumValue :: "16 word"

text \<open>
  Modelled from the spec: the success status of the driver, which the scripts
  import from \<^verbatim>\<open>picosdk\<close>.  Every other status is a failure.
\<close>

definition PICO_OK :: nat where
  "PICO_OK = 0"

text \<open>
  Modelled from the spec: \<^verbatim>\<open>assert_pico_ok\<close> of \<^verbatim>\<open>picosdk.functions\<close>, which is not
  part of the sources at hand.  The spec has every status other than success
  mapped to a fatal device error that carries the name of the failing operation
  and the code.  The script passes \<^verbatim>\<open>status[key]\<close>; the name is that key.
\<close>

definition assert_pico_ok :: "string \<Rightarrow> nat \<Rightarrow> error + unit" where
  "assert_pico_ok key st = (if st = PICO_OK then Inr () else Inl (DeviceError key st))"

subsection \<open>The sample converter\<close>

text \<open>
  Modelled from the spec: \<^verbatim>\<open>adc2mV\<close> of \<^verbatim>\<open>picosdk.functions\<close>, which is not part of
  the sources at hand.  The spec gives it as a pure function of the raw buffer,
  the full-scale range and the maximum ADC count, with
  \<^verbatim>\<open>voltageMv[i] = rawCounts[i] * fullScaleRangeMv / maxADCCount\<close> as floats, and
  has it fail with a division-by-zero error when the maximum count is 0.  The
  scripts pass the range as an index (7 for the 2 V range); the table
  \<open>fullScaleRangeMv\<close> from indices to millivolts is a parameter.
\<close>

definition convert :: "int \<Rightarrow> int \<Rightarrow> int \<Rightarrow> double" where
  "convert rawCount rangeMv maxADCCount = fl (of_int (rawCount * rangeMv) / of_int maxADCCount)"

definition adc2mV :: "(nat \<Rightarrow> int) \<Rightarrow> int list \<Rightarrow> nat \<Rightarrow> int \<Rightarrow> error + double list" where
  "adc2mV fullScaleRangeMv rawCounts fullScaleRange maxADCCount =
     (if maxADCCount = 0 then Inl DivisionByZeroError
      else Inr (map (\<lambda>x. convert x (fullScaleRangeMv fullScaleRange) maxADCCount) rawCounts))"

subsection \<open>The time axis\<close>

text \<open>
  \<^verbatim>\<open>numpy.linspace(start, stop, num)\<close> returns \<open>num\<close> evenly spaced samples over the
  closed interval from \<open>start\<close> to \<open>stop\<close>: sample \<open>i\<close> is \<open>start + i * step\<close> with
  \<open>step = (stop - start) / (num - 1)\<close>, and the last sample is \<open>stop\<close> itself.  A
  negative \<open>num\<close> raises \<^verbatim>\<open>ValueError\<close>.  NumPy computes in binary64 and never
  raises on an infinity or a NaN.
\<close>

definition linspace :: "double \<Rightarrow> double \<Rightarrow> int \<Rightarrow> error + double list" where
  "linspace start stop num =
     (if num < 0 then Inl ValueError
      else let divisor = num - 1;
               delta = fsub stop start;
               y = map (\<lambda>i. Fin (of_nat i)) [0..<nat num];
               scaled = (if 0 < divisor
                    then let step = fquot delta (Fin (of_int divisor))
                         in if step = Fin 0
                            then map (\<lambda>v. fmul (fquot v (Fin (of_int divisor))) delta) y
                            else map (\<lambda>v. fmul v step) y
                    else map (\<lambda>v. fmul v delta) y);
               shifted = map (\<lambda>v. fadd v start) scaled
           in Inr (if 1 < num then shifted[nat num - 1 := stop] else shifted))"

subsection \<open>Configuration of \<^verbatim>\<open>picoscope-2206B.py\<close>\<close>

text \<open>
  The two constants at the head of the script are the request.
\<close>

record config =
  SAMPLING_FREQUENCY :: rat
  ACQUISITION_TIME :: rat

text \<open>
  \<^verbatim>\<open>
  if SAMPLING_FREQUENCY >= 125e6:
      timebase = round(log(500e6/SAMPLING_FREQUENCY,2))
      print('Sampling frequency: {:,}'.format(1/(2**timebase/5)*1e8) + ' Hz')
  else:
      timebase=round(62.5e6/SAMPLING_FREQUENCY+2)
      print('Sampling frequency: {:,}'.format(62.5e6/(timebase-2)) + ' Hz')
  \<close>
  Console output is not part of the model, but the printed value is computed on
  the way and its computation can raise.  \<^verbatim>\<open>2**timebase\<close> is an \<^verbatim>\<open>int\<close> for a
  timebase from 0 on and a float below.
\<close>

definition timebase :: "(rat \<Rightarrow> double) \<Rightarrow> rat \<Rightarrow> error + int" where
  "timebase lg f =
     (if 125000000 \<le> f
      then and_then (fdiv (Fin 500000000) (Fin f)) (\<lambda>x. and_then (math_log lg x) py_round)
      else and_then (fdiv (Fin 62500000) (Fin f)) (\<lambda>x. py_round (fadd x (Fin 2))))"

definition actual_frequency :: "rat \<Rightarrow> int \<Rightarrow> error + double" where
  "actual_frequency f tb =
     (if 125000000 \<le> f
      then and_then (if 0 \<le> tb then int_truediv (2 ^ nat tb) 5 else fdiv (fl (2 powi tb)) (Fin 5))
             (\<lambda>x. and_then (fdiv (Fin 1) x) (\<lambda>y. Inr (fmul y (Fin 100000000))))
      else and_then (float_of_int (tb - 2)) (\<lambda>x. fdiv (Fin 62500000) x))"

text \<open>
  \<^verbatim>\<open>
  samplingInterval = 1/SAMPLING_FREQUENCY
  totalSamples = round(ACQUISITION_TIME/samplingInterval)
  \<close>
\<close>

definition totalSamples :: "rat \<Rightarrow> rat \<Rightarrow> error + int" where
  "totalSamples f d =
     and_then (fdiv (Fin 1) (Fin f)) (\<lambda>samplingInterval.
     and_then (fdiv (Fin d) samplingInterval) py_round)"

text \<open>Lines 16 to 29: the timebase and the number of samples, or the exception raised.\<close>

definition config_stage :: "(rat \<Rightarrow> double) \<Rightarrow> config \<Rightarrow> error + int \<times> int" where
  "config_stage lg cfg =
     and_then (timebase lg (SAMPLING_FREQUENCY cfg)) (\<lambda>tb.
     and_then (actual_frequency (SAMPLING_FREQUENCY cfg) tb) (\<lambda>shown.
     and_then (totalSamples (SAMPLING_FREQUENCY cfg) (ACQUISITION_TIME cfg)) (\<lambda>n.
     Inr (tb, n))))"

text \<open>
  \<^verbatim>\<open>
  preTriggerSamples = round(totalSamples/2)
  postTriggerSamples = totalSamples-preTriggerSamples
  \<close>
\<close>

definition preTriggerSamples :: "int \<Rightarrow> error + int" where
  "preTriggerSamples n = and_then (int_truediv n 2) py_round"

definition postTriggerSamples :: "int \<Rightarrow> int \<Rightarrow> int" where
  "postTriggerSamples n pre = n - pre"

subsection \<open>Sequencing\<close>

text \<open>
  A script is a sequence of statements over the list of calls issued so far.
  \<open>driver_call\<close> issues a call; \<open>checked\<close> is \<^verbatim>\<open>assert_pico_ok(status[key])\<close>,
  which ends the run when the status stored under the key is a failure;
  \<open>raising\<close> is a computation of the script that may raise.
\<close>

type_synonym 'a outcome = "call list \<times> (error + 'a)"

definition driver_call :: "call \<Rightarrow> (call list \<Rightarrow> 'a outcome) \<Rightarrow> call list \<Rightarrow> 'a outcome" where
  "driver_call c rest tr = rest (tr @ [c])"

definition checked :: "device \<Rightarrow> string \<Rightarrow> (call list \<Rightarrow> 'a outcome) \<Rightarrow> call list \<Rightarrow> 'a outcome" where
  "checked dev key rest tr =
     (case assert_pico_ok key (status dev key) of Inl e \<Rightarrow> (tr, Inl e) | Inr u \<Rightarrow> rest tr)"

definition raising :: "error + 'b \<Rightarrow> ('b \<Rightarrow> call list \<Rightarrow> 'a outcome) \<Rightarrow> call list \<Rightarrow> 'a outcome" where
  "raising r rest tr = (case r of Inl e \<Rightarrow> (tr, Inl e) | Inr x \<Rightarrow> rest x tr)"

definition finish :: "'a \<Rightarrow> call list \<Rightarrow> 'a outcome" where
  "finish x tr = (tr, Inr x)"

text \<open>
  What a run hands to the plot and to the CSV files.
\<close>

record capture =
  timeAxis :: "double list"
  adc2mVChAMax :: "double list"
  adc2mVChBMax :: "double list"

text \<open>
  \<^verbatim>\<open>(ctypes.c_int16 * n)()\<close> is an array of \<open>n\<close> zeros and raises \<^verbatim>\<open>ValueError\<close> for
  a negative \<open>n\<close>.  Memory is taken to suffice.  GetValues fills the registered
  buffer from its start with what the driver delivers; the rest stays zero.
\<close>

definition c_int16_array :: "int \<Rightarrow> error + 16 word list" where
  "c_int16_array n = (if n < 0 then Inl ValueError else Inr (replicate (nat n) 0))"

definition filled :: "16 word list \<Rightarrow> 16 word list \<Rightarrow> 16 word list" where
  "filled buffer vs = take (length buffer) vs @ drop (length vs) buffer"

text \<open>
  \<^verbatim>\<open>plt.plot(x, y)\<close> raises \<^verbatim>\<open>ValueError\<close> when the two sequences differ in
  length.  Apart from that the plot and the CSV files are taken to succeed.
\<close>

definition plot :: "double list \<Rightarrow> double list \<Rightarrow> error + unit" where
  "plot xs ys = (if length xs = length ys then Inr () else Inl ValueError)"

subsection \<open>The ready poll\<close>

text \<open>
  Both scripts wait for the capture with the same loop:
  \<^verbatim>\<open>
  ready = ctypes.c_int16(0)
  check = ctypes.c_int16(0)
  while ready.value == check.value:
      status["isReady"] = ps.ps2000aIsReady(chandle, ctypes.byref(ready))
  \<close>
  The driver is the only writer of \<^verbatim>\<open>ready\<close>; \<open>isReady n\<close> is the 16-bit value
  that the call number \<open>n\<close> (counted from 0) leaves in it.  Two \<^verbatim>\<open>c_int16\<close>
  objects have equal \<^verbatim>\<open>.value\<close> exactly when their 16 bits are equal, so the loop
  test is equality of words.  \<open>check\<close> is passed on unchanged, as the loop body
  never assigns it.  The loop may run forever, so the function is partial:
  \<open>None\<close> stands for a loop that never ends, \<open>Some k\<close> for a loop that ends
  after \<open>k\<close> calls of IsReady.
\<close>

partial_function (option) poll :: "(nat \<Rightarrow> 16 word) \<Rightarrow> 16 word \<Rightarrow> nat \<Rightarrow> 16 word \<Rightarrow> nat option" where
  "poll isReady check n ready =
     (if ready = check then poll isReady check (Suc n) (isReady n) else Some n)"

subsection \<open>The run of \<^verbatim>\<open>picoscope-2206B.py\<close>\<close>

definition chARange :: nat where
  "chARange = 7"

definition chBRange :: nat where
  "chBRange = 7"

text \<open>
  Lines 16 to 126: the configuration, then OpenUnit, SetChannel for A and B,
  SetSimpleTrigger, GetTimebase2 and RunBlock, each followed by
  \<^verbatim>\<open>assert_pico_ok\<close> on its status.  The result is \<^verbatim>\<open>totalSamples\<close>.
\<close>

definition setup_2206B :: "(rat \<Rightarrow> double) \<Rightarrow> config \<Rightarrow> device \<Rightarrow> int outcome" where
  "setup_2206B lg cfg dev =
     (raising (config_stage lg cfg) (\<lambda>(tb, n).
     (driver_call (Call ''ps2000aOpenUnit'' [])
     (checked dev ''openunit''
     (driver_call (Call ''ps2000aSetChannel'' [0, 1, 1, int chARange, 0])
     (checked dev ''setChA''
     (driver_call (Call ''ps2000aSetChannel'' [1, 1, 1, int chBRange, 0])
     (checked dev ''setChB''
     (driver_call (Call ''ps2000aSetSimpleTrigger'' [1, 0, 1024, 2, 0, 1000])
     (checked dev ''trigger''
     (raising (preTriggerSamples n) (\<lambda>pre.
     (driver_call (Call ''ps2000aGetTimebase2'' [tb, n, 0, 0])
     (checked dev ''getTimebase2''
     (driver_call (Call ''ps2000aRunBlock'' [pre, postTriggerSamples n pre, tb, 0, 0])
     (checked dev ''runBlock''
     (finish n))))))))))))))))) []"

text \<open>
  Lines 134 to 221: the buffers, SetDataBuffers for A and B, GetValues and
  MaximumValue (all checked), the conversion, the time axis
  \<^verbatim>\<open>np.linspace(0, (cTotalSamples.value) * (timeIntervalns.value-1), cTotalSamples.value)\<close>,
  the plot, and at the end Stop and CloseUnit (both checked).
\<close>

definition retrieve_2206B :: "(nat \<Rightarrow> int) \<Rightarrow> device \<Rightarrow> int \<Rightarrow> call list \<Rightarrow> capture outcome" where
  "retrieve_2206B mv dev n =
     (raising (c_int16_array n) (\<lambda>bufferAMax.
     (raising (c_int16_array n) (\<lambda>bufferBMax.
     (driver_call (Call ''ps2000aSetDataBuffers'' [0, n, 0, 0])
     (checked dev ''setDataBuffersA''
     (driver_call (Call ''ps2000aSetDataBuffers'' [1, n, 0, 0])
     (checked dev ''setDataBuffersB''
     (driver_call (Call ''ps2000aGetValues'' [0, 0, 0, 0])
     (checked dev ''getValues''
     (driver_call (Call ''ps2000aMaximumValue'' [])
     (checked dev ''maximumValue''
     (raising (adc2mV mv (map sint (filled bufferAMax (valuesA dev))) chARange
                 (sint (maximumValue dev))) (\<lambda>voltsA.
     (raising (adc2mV mv (map sint (filled bufferBMax (valuesB dev))) chBRange
                 (sint (maximumValue dev))) (\<lambda>voltsB.
     (raising (linspace (Fin 0)
                 (fmul (Fin (of_int (noOfSamples dev))) (fsub (timeIntervalNanoseconds dev) (Fin 1)))
                 (noOfSamples dev)) (\<lambda>t.
     (raising (plot t voltsA) (\<lambda>u.
     (raising (plot t voltsB) (\<lambda>u.
     (driver_call (Call ''ps2000aStop'' [])
     (checked dev ''stop''
     (driver_call (Call ''ps2000aCloseUnit'' [])
     (checked dev ''close''
     (finish \<lparr>timeAxis = t, adc2mVChAMax = voltsA, adc2mVChBMax = voltsB\<rparr>)))))))))))))))))))))))))))"

text \<open>
  The whole run: \<open>None\<close> when the poll never ends, otherwise the calls issued and
  the capture or the exception that ended the run.
\<close>

definition run_2206B ::
  "(rat \<Rightarrow> double) \<Rightarrow> (nat \<Rightarrow> int) \<Rightarrow> config \<Rightarrow> device \<Rightarrow> capture outcome option" where
  "run_2206B lg mv cfg dev =
     (case setup_2206B lg cfg dev of
        (tr, Inl e) \<Rightarrow> Some (tr, Inl e)
      | (tr, Inr n) \<Rightarrow>
          (case poll (readyValue dev) 0 0 0 of
             None \<Rightarrow> None
           | Some k \<Rightarrow> Some (retrieve_2206B mv dev n (tr @ replicate k (Call ''ps2000aIsReady'' [])))))"

subsection \<open>The run of \<^verbatim>\<open>ps6000BlockExample.py\<close>\<close>

text \<open>
  This script stores every status and asserts none.  The numbers of samples and
  the timebase are constants, and so is \<^verbatim>\<open>maxADC = ctypes.c_int16(32512)\<close>; the
  script does not call MaximumValue and does not call Stop.
\<close>

definition maxSamples :: int where
  "maxSamples = 2500 + 2500"

definition setup_ps6000 :: "int outcome" where
  "setup_ps6000 =
     (driver_call (Call ''ps6000OpenUnit'' [])
     (driver_call (Call ''ps6000SetChannel'' [0, 1, 1, int chARange, 0, 0])
     (driver_call (Call ''ps6000SetChannel'' [1, 1, 1, int chBRange, 0, 0])
     (driver_call (Call ''ps6000SetSimpleTrigger'' [1, 0, 64, 2, 0, 1000])
     (driver_call (Call ''ps6000GetTimebase2'' [8, maxSamples, 1, 0])
     (driver_call (Call ''ps6000RunBlock'' [2500, 2500, 8, 0, 0])
     (finish maxSamples))))))) []"

definition retrieve_ps6000 :: "(nat \<Rightarrow> int) \<Rightarrow> device \<Rightarrow> int \<Rightarrow> call list \<Rightarrow> capture outcome" where
  "retrieve_ps6000 mv dev n =
     (raising (c_int16_array n) (\<lambda>bufferAMax.
     (raising (c_int16_array n) (\<lambda>bufferBMax.
     (driver_call (Call ''ps6000SetDataBuffers'' [0, n, 0])
     (driver_call (Call ''ps6000SetDataBuffers'' [1, n, 0])
     (driver_call (Call ''ps6000GetValues'' [0, 1, 0, 0])
     (raising (adc2mV mv (map sint (filled bufferAMax (valuesA dev))) chARange 32512) (\<lambda>voltsA.
     (raising (adc2mV mv (map sint (filled bufferBMax (valuesB dev))) chBRange 32512) (\<lambda>voltsB.
     (raising (linspace (Fin 0)
                 (fmul (Fin (of_int (noOfSamples dev))) (timeIntervalNanoseconds dev))
                 (noOfSamples dev)) (\<lambda>t.
     (raising (plot t voltsA) (\<lambda>u.
     (raising (plot t voltsB) (\<lambda>u.
     (driver_call (Call ''ps6000CloseUnit'' [])
     (finish \<lparr>timeAxis = t, adc2mVChAMax = voltsA, adc2mVChBMax = voltsB\<rparr>)))))))))))))))))))"

definition run_ps6000 :: "(nat \<Rightarrow> int) \<Rightarrow> device \<Rightarrow> capture outcome option" where
  "run_ps6000 mv dev =
     (case setup_ps6000 of
        (tr, Inl e) \<Rightarrow> Some (tr, Inl e)
      | (tr, Inr n) \<Rightarrow>
          (case poll (readyValue dev) 0 0 0 of
             None \<Rightarrow> None
           | Some k \<Rightarrow> Some (retrieve_ps6000 mv dev n (tr @ replicate k (Call ''ps6000IsReady'' [])))))"

subsection \<open>Facts about rounding\<close>

lemma powi_nat: "0 \<le> e \<Longrightarrow> (2::rat) powi e = of_int (2 ^ nat e)"
  by (simp add: power_int_def)

lemma ilog2_bounds_ge1:
  assumes "1 \<le> (a::rat)"
  shows "2 powi (bitlen \<lfloor>a\<rfloor> - 1) \<le> a \<and> a < 2 powi (bitlen \<lfloor>a\<rfloor> - 1 + 1)"
proof -
  let ?n = "\<lfloor>a\<rfloor>"
  from assms have n: "0 < ?n" by simp
  from bitlen_bounds [OF n]
  have lo: "2 ^ nat (bitlen ?n - 1) \<le> ?n" and hi: "?n < 2 ^ nat (bitlen ?n)" by simp_all
  from n have b1: "1 \<le> bitlen ?n" by (auto simp: bitlen_alt_def)
  have "(2::rat) powi (bitlen ?n - 1) = of_int (2 ^ nat (bitlen ?n - 1))"
    using b1 by (intro powi_nat) simp
  also have "\<dots> \<le> of_int ?n" using lo by (simp only: of_int_le_iff)
  also have "\<dots> \<le> a" by simp
  finally have L: "2 powi (bitlen ?n - 1) \<le> a" .
  from hi have "?n + 1 \<le> 2 ^ nat (bitlen ?n)" by simp
  then have "of_int (?n + 1) \<le> (of_int (2 ^ nat (bitlen ?n)) :: rat)" by (simp only: of_int_le_iff)
  moreover have "a < of_int (?n + 1)" by linarith
  ultimately have "a < (of_int (2 ^ nat (bitlen ?n)) :: rat)" by linarith
  also have "\<dots> = 2 powi (bitlen ?n)"
    using b1 by (intro powi_nat [symmetric]) simp
  finally have "a < 2 powi (bitlen ?n - 1 + 1)" by simp
  with L show ?thesis by blast
qed

lemma ilog2_bounds_lt1:
  assumes "0 < (a::rat)" "a < 1"
  shows "2 powi (- bitlen (\<lceil>1 / a\<rceil> - 1)) \<le> a \<and> a < 2 powi (- bitlen (\<lceil>1 / a\<rceil> - 1) + 1)"
proof -
  let ?x = "1 / a"
  let ?m = "\<lceil>?x\<rceil> - 1"
  from assms have x1: "1 < ?x" by simp
  then have "1 < \<lceil>?x\<rceil>" by (simp add: less_ceiling_iff)
  then have m: "0 < ?m" by simp
  from bitlen_bounds [OF m]
  have lo: "2 ^ nat (bitlen ?m - 1) \<le> ?m" and hi: "?m < 2 ^ nat (bitlen ?m)" by simp_all
  from m have b1: "1 \<le> bitlen ?m" by (auto simp: bitlen_alt_def)
  have pos: "(0::rat) < 2 powi k" for k by simp
  from hi have "\<lceil>?x\<rceil> \<le> 2 ^ nat (bitlen ?m)" by simp
  then have "(of_int \<lceil>?x\<rceil> :: rat) \<le> of_int (2 ^ nat (bitlen ?m))" by (simp only: of_int_le_iff)
  moreover have "?x \<le> of_int \<lceil>?x\<rceil>" by simp
  ultimately have "?x \<le> of_int (2 ^ nat (bitlen ?m))" by linarith
  also have "\<dots> = 2 powi (bitlen ?m)"
    using b1 by (intro powi_nat [symmetric]) simp
  finally have "1 / a \<le> 2 powi (bitlen ?m)" .
  with assms(1) pos [of "bitlen ?m"] have "1 / (2 powi (bitlen ?m)) \<le> a"
    by (simp add: field_simps)
  then have L: "2 powi (- bitlen ?m) \<le> a"
    by (simp add: power_int_minus_divide)
  have "(of_int ?m :: rat) < ?x" by linarith
  moreover from lo have "(of_int (2 ^ nat (bitlen ?m - 1)) :: rat) \<le> of_int ?m"
    by (simp only: of_int_le_iff)
  ultimately have "(of_int (2 ^ nat (bitlen ?m - 1)) :: rat) < ?x" by linarith
  moreover have "(2::rat) powi (bitlen ?m - 1) = of_int (2 ^ nat (bitlen ?m - 1))"
    using b1 by (intro powi_nat) simp
  ultimately have "2 powi (bitlen ?m - 1) < 1 / a" by simp
  with assms(1) pos [of "bitlen ?m - 1"] have "a < 1 / (2 powi (bitlen ?m - 1))"
    by (simp add: field_simps)
  then have "a < 2 powi (- (bitlen ?m - 1))"
    by (simp only: power_int_minus_divide)
  then have U: "a < 2 powi (- bitlen ?m + 1)" by simp
  from L U show ?thesis by blast
qed

lemma ilog2_bounds:
  assumes "q \<noteq> 0"
  shows "2 powi (ilog2 q) \<le> \<bar>q\<bar> \<and> \<bar>q\<bar> < 2 powi (ilog2 q + 1)"
proof (cases "1 \<le> \<bar>q\<bar>")
  case True
  with ilog2_bounds_ge1 [OF True] show ?thesis by (simp add: ilog2_def)
next
  case False
  then have lt: "\<bar>q\<bar> < 1" by simp
  from assms have pos: "0 < \<bar>q\<bar>" by simp
  from ilog2_bounds_lt1 [OF pos lt] False show ?thesis by (simp add: ilog2_def)
qed

lemma powi_exp_less:
  assumes "(2::rat) powi e \<le> a" "a < 2 powi (d + 1)"
  shows "e \<le> d"
proof (rule ccontr)
  assume "\<not> e \<le> d"
  then have "d + 1 \<le> e" by simp
  then have "(2::rat) powi (d + 1) \<le> 2 powi e" by (intro power_int_increasing) simp_all
  with assms show False by linarith
qed

lemma ilog2_unique:
  assumes "2 powi e \<le> \<bar>q\<bar>" "\<bar>q\<bar> < 2 powi (e + 1)"
  shows "ilog2 q = e"
proof -
  have "(0::rat) < 2 powi e" by simp
  with assms(1) have "0 < \<bar>q\<bar>" by linarith
  then have "q \<noteq> 0" by simp
  from ilog2_bounds [OF this]
  have b: "2 powi (ilog2 q) \<le> \<bar>q\<bar>" "\<bar>q\<bar> < 2 powi (ilog2 q + 1)" by simp_all
  from powi_exp_less [OF assms(1) b(2)] powi_exp_less [OF b(1) assms(2)]
  show ?thesis by simp
qed

lemma round_half_even_of_int [simp]: "round_half_even (of_int n) = n"
  by (simp add: round_half_even_def)

lemma round_half_even_eqI:
  assumes "\<bar>q - of_int n\<bar> < 1 / 2"
  shows "round_half_even q = n"
proof (cases "of_int n \<le> q")
  case True
  with assms have "\<lfloor>q\<rfloor> = n" by (intro floor_unique) linarith+
  with assms True show ?thesis by (simp add: round_half_even_def Let_def)
next
  case False
  with assms have f: "\<lfloor>q\<rfloor> = n - 1" by (intro floor_unique) (simp, linarith)+
  from assms False have "\<not> q - of_int (n - 1) < 1 / 2" "1 / 2 < q - of_int (n - 1)"
    by (simp, linarith)+
  with f show ?thesis by (simp add: round_half_even_def Let_def)
qed

lemma round_half_even_tie:
  assumes "q = of_int n + 1 / 2"
  shows "round_half_even q = (if even n then n else n + 1)"
proof -
  from assms have "\<lfloor>q\<rfloor> = n" by (intro floor_unique) simp_all
  with assms show ?thesis by (simp add: round_half_even_def Let_def)
qed

text \<open>
  A certificate for one rounding: the exponent \<open>e\<close> and the integer \<open>n\<close> nearest
  to the scaled number determine \<open>fl q\<close>.
\<close>

lemma fl_eqI:
  assumes e: "2 powi e \<le> \<bar>q\<bar>" "\<bar>q\<bar> < 2 powi (e + 1)"
    and n: "\<bar>q / 2 powi (max e (- 1022) - 52) - of_int n\<bar> < 1 / 2"
    and r: "of_int n * 2 powi (max e (- 1022) - 52) = r"
    and fin: "\<bar>r\<bar> < 2 ^ 1024"
  shows "fl q = Fin r"
proof -
  have "(0::rat) < 2 powi e" by simp
  with e(1) have "0 < \<bar>q\<bar>" by linarith
  then have q: "q \<noteq> 0" by simp
  from ilog2_unique [OF e] have "ilog2 q = e" .
  with q round_half_even_eqI [OF n] r fin show ?thesis
    by (simp add: fl_def Let_def)
qed

subsection \<open>Facts about the ready poll\<close>

lemma poll_done: "ready \<noteq> check \<Longrightarrow> poll isReady check n ready = Some n"
  by (subst poll.simps) simp

lemma poll_again: "poll isReady check n check = poll isReady check (Suc n) (isReady n)"
  by (subst poll.simps) simp

lemma poll_Some_ready:
  assumes "poll isReady check n ready = Some k"
  shows "(ready \<noteq> check \<and> k = n) \<or> (ready = check \<and> n < k \<and> isReady (k - 1) \<noteq> check \<and> (\<forall>m. n \<le> m \<and> m < k - 1 \<longrightarrow> isReady m = check))"
  using assms
proof (induction isReady check n ready k rule: poll.raw_induct)
  case (1 poll' isReady check n ready k)
  note ih = 1(1) and body = 1(2) and actual = 1(3)
  show ?case
  proof (cases "ready = check")
    case False
    with body show ?thesis by simp
  next
    case True
    from True body have rec': "poll' isReady check (Suc n) (isReady n) = Some k" by simp
    from True actual have rec: "poll isReady check (Suc n) (isReady n) = Some k"
      using poll_again [of isReady check n] by simp
    from ih [OF rec' rec]
    consider (now) "isReady n \<noteq> check" "k = Suc n"
      | (later) "isReady n = check" "Suc n < k" "isReady (k - 1) \<noteq> check"
          "\<forall>m. Suc n \<le> m \<and> m < k - 1 \<longrightarrow> isReady m = check"
      by blast
    then show ?thesis
    proof cases
      case now
      from now(2) have "n < k" "k - 1 = n" by arith+
      with True now(1) show ?thesis by auto
    next
      case later
      have rest: "\<forall>m. n \<le> m \<and> m < k - 1 \<longrightarrow> isReady m = check"
      proof (intro allI impI)
        fix m
        assume m: "n \<le> m \<and> m < k - 1"
        show "isReady m = check"
        proof (cases "m = n")
          case True
          with later(1) show ?thesis by (simp only:)
        next
          case False
          with m have "Suc n \<le> m \<and> m < k - 1" by arith
          with later(4) show ?thesis by blast
        qed
      qed
      from later(2) have "n < k" by arith
      with True later(3) rest show ?thesis by blast
    qed
  qed
qed (rule assms)

lemma poll_first:
  "isReady (n + j) \<noteq> check \<Longrightarrow> (\<forall>m. n \<le> m \<and> m < n + j \<longrightarrow> isReady m = check) \<Longrightarrow>
     poll isReady check n check = Some (Suc (n + j))"
proof (induction j arbitrary: n)
  case 0
  have "poll isReady check n check = poll isReady check (Suc n) (isReady n)"
    by (rule poll_again)
  also have "\<dots> = Some (Suc n)"
    using 0 by (intro poll_done) simp
  finally show ?case by simp
next
  case (Suc j)
  have eq: "isReady n = check"
    using Suc.prems(2) by simp
  have a: "isReady (Suc n + j) \<noteq> check"
    using Suc.prems(1) by simp
  have b: "\<forall>m. Suc n \<le> m \<and> m < Suc n + j \<longrightarrow> isReady m = check"
    using Suc.prems(2) by simp
  have "poll isReady check (Suc n) check = Some (Suc (Suc n + j))"
    by (rule Suc.IH [OF a b])
  then have "poll isReady check (Suc n) (isReady n) = Some (Suc (n + Suc j))"
    by (simp only: eq add_Suc add_Suc_right)
  then show ?case
    by (subst poll_again)
qed

lemma poll_never:
  assumes "\<forall>m. isReady m = check"
  shows "poll isReady check n check = None"
proof (cases "poll isReady check n check")
  case None
  then show ?thesis .
next
  case (Some k)
  from poll_Some_ready [OF Some] have "isReady (k - 1) \<noteq> check" by blast
  with assms show ?thesis by blast
qed

text \<open>
  C9: in both scripts the poll compares \<^verbatim>\<open>ready\<close> with a \<^verbatim>\<open>check\<close> that stays 0, so
  the loop ends if and only if some IsReady call leaves a nonzero value in
  \<^verbatim>\<open>ready\<close>; it then ends right after the first such call.  There is no bound on
  the number of iterations: with a driver that never reports ready the poll does
  not return.
\<close>

theorem poll_ends_iff_ready:
  "((\<exists>k. poll isReady 0 0 0 = Some k) \<longleftrightarrow> (\<exists>n. isReady n \<noteq> 0)) \<and>
   (\<forall>k. poll isReady 0 0 0 = Some k \<longrightarrow>
      0 < k \<and> isReady (k - 1) \<noteq> 0 \<and> (\<forall>m. m < k - 1 \<longrightarrow> isReady m = 0)) \<and>
   ((\<forall>n. isReady n = 0) \<longrightarrow> poll isReady 0 0 0 = None)"
proof -
  have ends: "(\<exists>k. poll isReady 0 0 0 = Some k) \<longleftrightarrow> (\<exists>n. isReady n \<noteq> 0)"
  proof
    assume "\<exists>k. poll isReady 0 0 0 = Some k"
    then obtain k where k: "poll isReady 0 0 0 = Some k" ..
    from poll_Some_ready [OF k] have "isReady (k - 1) \<noteq> 0" by blast
    then show "\<exists>n. isReady n \<noteq> 0" ..
  next
    assume ex: "\<exists>n. isReady n \<noteq> 0"
    define j where "j = (LEAST n. isReady n \<noteq> 0)"
    have j: "isReady j \<noteq> 0"
      unfolding j_def using ex by (rule LeastI_ex)
    have before: "\<forall>m. 0 \<le> m \<and> m < 0 + j \<longrightarrow> isReady m = 0"
      unfolding j_def using not_less_Least by fastforce
    from j have "isReady (0 + j) \<noteq> 0" by simp
    from poll_first [OF this before] show "\<exists>k. poll isReady 0 0 0 = Some k" ..
  qed
  have first: "\<forall>k. poll isReady 0 0 0 = Some k \<longrightarrow>
      0 < k \<and> isReady (k - 1) \<noteq> 0 \<and> (\<forall>m. m < k - 1 \<longrightarrow> isReady m = 0)"
  proof (intro allI impI)
    fix k
    assume k: "poll isReady 0 0 0 = Some k"
    from poll_Some_ready [OF k]
    show "0 < k \<and> isReady (k - 1) \<noteq> 0 \<and> (\<forall>m. m < k - 1 \<longrightarrow> isReady m = 0)"
      by simp
  qed
  have never: "(\<forall>n. isReady n = 0) \<longrightarrow> poll isReady 0 0 0 = None"
    using poll_never [of isReady 0 0] by blast
  from ends first never show ?thesis by (intro conjI)
qed

text \<open>
  A driver that reports ready at the third call: the poll makes three calls.
\<close>

theorem poll_ends_iff_ready_witness:
  "poll (\<lambda>n. if n < 2 then 0 else 1) 0 0 0 = Some 3 \<and>
   (\<exists>n::nat. (if n < 2 then 0 else 1 :: 16 word) \<noteq> 0)"
proof -
  let ?d = "\<lambda>n::nat. if n < 2 then 0 else 1 :: 16 word"
  have ex: "\<exists>n. ?d n \<noteq> 0"
    by (rule exI [of _ 2]) simp
  with poll_ends_iff_ready [of ?d] obtain k where k: "poll ?d 0 0 0 = Some k"
    by blast
  with poll_ends_iff_ready [of ?d]
  have props: "0 < k" "?d (k - 1) \<noteq> 0" "\<forall>m. m < k - 1 \<longrightarrow> ?d m = 0"
    by blast+
  from props(2) have "2 \<le> k - 1" by (simp split: if_splits)
  moreover have "k - 1 \<le> 2"
  proof (rule ccontr)
    assume "\<not> k - 1 \<le> 2"
    then have "2 < k - 1" by simp
    with props(3) have "?d 2 = 0" by blast
    then show False by simp
  qed
  ultimately have "k = 3" using props(1) by simp
  with k ex show ?thesis by simp
qed

end
